theory Spec2Isabelle
  imports Complex_Main "HOL-Library.AList"
begin

section \<open>The Gamelocker client (\<^verbatim>\<open>gamelocker/api.py\<close>)\<close>

text \<open>
  The module holds one class, \<^verbatim>\<open>Gamelocker\<close>, with four fields and the methods
  \<^verbatim>\<open>__init__\<close>, \<^verbatim>\<open>_req\<close>, \<^verbatim>\<open>_get\<close>, \<^verbatim>\<open>Vainglory\<close>, \<^verbatim>\<open>status\<close>, \<^verbatim>\<open>match\<close>,
  \<^verbatim>\<open>player\<close> and \<^verbatim>\<open>matches\<close>. A name of the source that starts with an underscore
  loses it here (\<open>apiurl\<close>, \<open>req\<close>, \<open>get\<close>); \<^verbatim>\<open>__init__\<close> is \<open>init\<close>.
\<close>

subsection \<open>Data\<close>

text \<open>
  The exceptions that can leave a method. \<open>HTTPError\<close> is what
  \<^verbatim>\<open>http.raise_for_status()\<close> raises (with the status code), \<open>KeyError\<close> is
  \<^verbatim>\<open>data["data"]\<close> on a body without that key, \<open>TypeError\<close> is \<^verbatim>\<open>matches += x\<close> for
  an \<^verbatim>\<open>x\<close> that is a single domain object and not a list (a domain object is taken not
  to be iterable). \<open>TransportError\<close> stands for every other exception of the HTTP
  library (no connection, a body that is no JSON).
\<close>

datatype error = HTTPError nat | KeyError string | TypeError | TransportError string

text \<open>The values stored in the \<^verbatim>\<open>params\<close> dictionary: integers and strings.\<close>

datatype pyval = PInt int | PStr string

text \<open>
  A Python dictionary keeps its keys in insertion order, and assigning to a key that is
  present keeps the key's place: an association list under \<^const>\<open>AList.update\<close>.
\<close>

type_synonym pdict = "(string \<times> pyval) list"

text \<open>What \<^verbatim>\<open>requests.get\<close> is called with; \<open>params = None\<close> is Python's \<^verbatim>\<open>None\<close>.\<close>

record request =
  url :: string
  headers :: "(string \<times> string) list"
  params :: "pdict option"

text \<open>
  The \<^verbatim>\<open>data\<close> section of a document is one entity or a list of entities, and so is
  what \<^verbatim>\<open>_get\<close> returns.
\<close>

datatype 'a shaped = Single 'a | Many "'a list"

text \<open>
  The parsed JSON body, as far as the client reads it: the key \<^verbatim>\<open>included\<close> may be
  missing (\<open>None\<close>), and so may \<^verbatim>\<open>data\<close>. \<open>'r\<close> is the type of raw entities.
\<close>

record 'r document =
  included :: "'r list option"
  data :: "'r shaped option"

record client =
  apikey :: string
  apiurl :: string
  title :: string
  region :: string

text \<open>
  Client objects live in a store, addressed by references, since \<^verbatim>\<open>Vainglory\<close>
  mutates its receiver and returns it. The other half of the state is the list of the
  requests sent so far, oldest first.
\<close>

type_synonym ref = nat

record state =
  objs :: "ref \<Rightarrow> client"
  sent :: "request list"

text \<open>
  What the module calls and does not define:
  \<^item> \<open>transport\<close> is \<^verbatim>\<open>requests.get\<close> followed by \<^verbatim>\<open>raise_for_status()\<close> and
    \<^verbatim>\<open>json()\<close>: given the requests sent before and the request, the service's answer,
    an error or a parsed body;
  \<^item> \<open>data_to_object\<close> and \<open>link_to_object\<close> are the functions of
    \<^verbatim>\<open>gamelocker.datatypes\<close>, which the specification describes as pure and as never
    failing; \<open>'o\<close> is the type of domain objects;
  \<^item> \<open>isoformat\<close> is \<^verbatim>\<open>datetime.datetime.isoformat\<close>; \<open>'dt\<close> is the type of
    \<^verbatim>\<open>datetime\<close> values.
\<close>

record ('r, 'o, 'dt) env =
  transport :: "request list \<Rightarrow> request \<Rightarrow> error + 'r document"
  data_to_object :: "'r \<Rightarrow> 'o"
  link_to_object :: "'o \<Rightarrow> 'o list \<Rightarrow> 'o"
  isoformat :: "'dt \<Rightarrow> string"

text \<open>
  \<^verbatim>\<open>createdAtStart\<close> and \<^verbatim>\<open>createdAtEnd\<close> are a \<^verbatim>\<open>datetime\<close> or a string.
\<close>

datatype 'dt timearg = DateTime 'dt | TimeStr string

subsection \<open>Construction and title selection\<close>

text \<open>An optional argument is an \<open>option\<close>: \<open>None\<close> when the caller leaves it out.\<close>

definition init :: "string \<Rightarrow> string option \<Rightarrow> client" where
  "init key datacenter =
     (let dc = (case datacenter of None \<Rightarrow> ''dc01'' | Some d \<Rightarrow> d)
      in \<lparr>apikey = key,
          apiurl = ''https://api.'' @ dc @ ''.gamelockerapp.com/'',
          title = '''',
          region = ''''\<rparr>)"

definition Vainglory :: "ref \<Rightarrow> string option \<Rightarrow> state \<Rightarrow> ref \<times> state" where
  "Vainglory self region_arg s =
     (let r = (case region_arg of None \<Rightarrow> ''na'' | Some x \<Rightarrow> x)
      in (self, s\<lparr>objs := (objs s)(self := (objs s self)\<lparr>title := ''semc-vainglory'', region := r\<rparr>)\<rparr>))"

subsection \<open>Requests\<close>

definition req ::
  "('r, 'o, 'dt) env \<Rightarrow> ref \<Rightarrow> string \<Rightarrow> pdict option \<Rightarrow> state \<Rightarrow> (error + 'r document) \<times> state" where
  "req E self method ps s =
     (let c = objs s self;
          hdrs = [(''Authorization'', ''Bearer '' @ apikey c),
                  (''X-TITLE-ID'', title c),
                  (''Accept'', ''application/vnd.api+json'')];
          http = \<lparr>url = apiurl c @ method, headers = hdrs, params = ps\<rparr>
      in (transport E (sent s) http, s\<lparr>sent := sent s @ [http]\<rparr>))"

text \<open>The two loops of \<^verbatim>\<open>_get\<close>, each appending to its list.\<close>

fun collect_includes :: "('r, 'o, 'dt) env \<Rightarrow> 'r list \<Rightarrow> 'o list \<Rightarrow> 'o list" where
  "collect_includes E [] includes = includes"
| "collect_includes E (incl # rest) includes =
     collect_includes E rest (includes @ [data_to_object E incl])"

fun link_elements :: "('r, 'o, 'dt) env \<Rightarrow> 'r list \<Rightarrow> 'o list \<Rightarrow> 'o list \<Rightarrow> 'o list" where
  "link_elements E [] includes elements = elements"
| "link_elements E (dat # rest) includes elements =
     (let element = data_to_object E dat;
          element = link_to_object E element includes
      in link_elements E rest includes (elements @ [element]))"

definition get ::
  "('r, 'o, 'dt) env \<Rightarrow> ref \<Rightarrow> string \<Rightarrow> string \<Rightarrow> pdict option \<Rightarrow> state
     \<Rightarrow> (error + 'o shaped) \<times> state" where
  "get E self endpoint elid ps s =
     (case req E self (''shards/'' @ region (objs s self) @ ''/'' @ endpoint @ ''/'' @ elid) ps s of
        (Inl e, s') \<Rightarrow> (Inl e, s')
      | (Inr doc, s') \<Rightarrow>
          (let includes = (case included doc of
                             Some incls \<Rightarrow> collect_includes E incls []
                           | None \<Rightarrow> [])
           in case data doc of
                None \<Rightarrow> (Inl (KeyError ''data''), s')
              | Some (Many dats) \<Rightarrow> (Inr (Many (link_elements E dats includes [])), s')
              | Some (Single dat) \<Rightarrow>
                  (let element = data_to_object E dat;
                       element = link_to_object E element includes
                   in (Inr (Single element), s'))))"

definition status ::
  "('r, 'o, 'dt) env \<Rightarrow> ref \<Rightarrow> state \<Rightarrow> (error + 'r document) \<times> state" where
  "status E self s = req E self ''status'' None s"

text \<open>\<^verbatim>\<open>match\<close> and \<^verbatim>\<open>player\<close> leave \<^verbatim>\<open>params\<close> at its default, \<^verbatim>\<open>None\<close>.\<close>

definition match ::
  "('r, 'o, 'dt) env \<Rightarrow> ref \<Rightarrow> string \<Rightarrow> state \<Rightarrow> (error + 'o shaped) \<times> state" where
  "match E self elid s = get E self ''matches'' elid None s"

definition player ::
  "('r, 'o, 'dt) env \<Rightarrow> ref \<Rightarrow> string \<Rightarrow> state \<Rightarrow> (error + 'o shaped) \<times> state" where
  "player E self elid s = get E self ''players'' elid None s"

subsection \<open>The list query\<close>

definition max_limit :: int where
  "max_limit = 50"

text \<open>
  Python's \<^verbatim>\<open>range(start, stop, step)\<close> for a positive step, the only kind
  \<^verbatim>\<open>matches\<close> uses: \<open>start\<close>, \<open>start + step\<close>, ... below \<open>stop\<close>.
\<close>

function py_range :: "int \<Rightarrow> int \<Rightarrow> int \<Rightarrow> int list" where
  "py_range start stop step =
     (if 0 < step \<and> start < stop then start # py_range (start + step) stop step else [])"
  by pat_completeness auto
termination
  by (relation "measure (\<lambda>(start, stop, step). nat (stop - start))") auto

declare py_range.simps [simp del]

text \<open>
  Lines 166 to 189 build the dictionary \<^verbatim>\<open>params\<close> by seven statements of three
  kinds. Python's \<^verbatim>\<open>if x:\<close> is false for \<^verbatim>\<open>None\<close>, for \<open>0\<close> and for the empty
  string, and true for every \<^verbatim>\<open>datetime\<close>.

  \<^verbatim>\<open>if x: params[k] = x  else: x = dflt\<close>, for \<^verbatim>\<open>limit\<close> and \<^verbatim>\<open>offset\<close>; the result
  is the dictionary and the new value of \<^verbatim>\<open>x\<close>:
\<close>

definition set_int :: "string \<Rightarrow> int option \<Rightarrow> int \<Rightarrow> pdict \<Rightarrow> pdict \<times> int" where
  "set_int k x dflt ps =
     (case x of
        Some v \<Rightarrow> if v \<noteq> 0 then (AList.update k (PInt v) ps, v) else (ps, dflt)
      | None \<Rightarrow> (ps, dflt))"

text \<open>\<^verbatim>\<open>if x: params[k] = x\<close>, for \<^verbatim>\<open>sort\<close>, \<^verbatim>\<open>player\<close> and \<^verbatim>\<open>team\<close>:\<close>

definition set_str :: "string \<Rightarrow> string option \<Rightarrow> pdict \<Rightarrow> pdict" where
  "set_str k x ps =
     (case x of
        Some v \<Rightarrow> if v \<noteq> [] then AList.update k (PStr v) ps else ps
      | None \<Rightarrow> ps)"

text \<open>
  \<^verbatim>\<open>if x: if isinstance(x, datetime.datetime): x = x.isoformat()
  params[k] = x\<close>, for \<^verbatim>\<open>createdAtStart\<close> and \<^verbatim>\<open>createdAtEnd\<close>:
\<close>

definition set_time ::
  "('r, 'o, 'dt) env \<Rightarrow> string \<Rightarrow> 'dt timearg option \<Rightarrow> pdict \<Rightarrow> pdict" where
  "set_time E k x ps =
     (case x of
        Some (DateTime d) \<Rightarrow> AList.update k (PStr (isoformat E d)) ps
      | Some (TimeStr v) \<Rightarrow> if v \<noteq> [] then AList.update k (PStr v) ps else ps
      | None \<Rightarrow> ps)"

text \<open>
  The dictionary and the values of \<^verbatim>\<open>limit\<close> and \<^verbatim>\<open>offset\<close> with which the loop
  starts.
\<close>

definition matches_params ::
  "('r, 'o, 'dt) env \<Rightarrow> int option \<Rightarrow> int option \<Rightarrow> string option \<Rightarrow> string option
     \<Rightarrow> string option \<Rightarrow> 'dt timearg option \<Rightarrow> 'dt timearg option \<Rightarrow> pdict \<times> int \<times> int" where
  "matches_params E limit offset sort_arg player_arg team createdAtStart createdAtEnd =
     (let ps = [];
          (ps, limit) = set_int ''page[limit]'' limit max_limit ps;
          (ps, offset) = set_int ''page[offset]'' offset 0 ps;
          ps = set_str ''sort'' sort_arg ps;
          ps = set_str ''filter[playerNames]'' player_arg ps;
          ps = set_str ''filter[teamNames]'' team ps;
          ps = set_time E ''filter[createdAt-start]'' createdAtStart ps;
          ps = set_time E ''filter[createdAt-end]'' createdAtEnd ps
      in (ps, limit, offset))"

text \<open>
  Lines 192 to 199: one iteration for each element of the range, which Python computes
  once, before \<^verbatim>\<open>limit\<close> is decremented. \<^verbatim>\<open>_get\<close> is called with \<^verbatim>\<open>elid\<close> at its
  default, the empty string. An exception leaves the loop, and the list built so far is
  lost with it.
\<close>

fun matches_loop ::
  "('r, 'o, 'dt) env \<Rightarrow> ref \<Rightarrow> int list \<Rightarrow> int \<Rightarrow> int \<Rightarrow> pdict \<Rightarrow> 'o list \<Rightarrow> state
     \<Rightarrow> (error + 'o list) \<times> state" where
  "matches_loop E self [] limit offset ps acc s = (Inr acc, s)"
| "matches_loop E self (batch # rest) limit offset ps acc s =
     (let ps = AList.update ''page[limit]'' (PInt (min limit max_limit)) ps;
          ps = AList.update ''page[offset]'' (PInt (batch + offset)) ps
      in case get E self ''matches'' '''' (Some ps) s of
           (Inl e, s') \<Rightarrow> (Inl e, s')
         | (Inr (Many elements), s') \<Rightarrow>
             matches_loop E self rest (limit - max_limit) offset ps (acc @ elements) s'
         | (Inr (Single element), s') \<Rightarrow> (Inl TypeError, s'))"

definition matches ::
  "('r, 'o, 'dt) env \<Rightarrow> ref \<Rightarrow> int option \<Rightarrow> int option \<Rightarrow> string option \<Rightarrow> string option
     \<Rightarrow> string option \<Rightarrow> 'dt timearg option \<Rightarrow> 'dt timearg option \<Rightarrow> state
     \<Rightarrow> (error + 'o list) \<times> state" where
  "matches E self limit offset sort_arg player_arg team createdAtStart createdAtEnd s =
     (let (ps, limit, offset) =
            matches_params E limit offset sort_arg player_arg team createdAtStart createdAtEnd
      in matches_loop E self (py_range 0 limit max_limit) limit offset ps [] s)"

subsection \<open>The public operations as one step function\<close>

datatype 'dt call =
    CallVainglory "string option"
  | CallStatus
  | CallMatch string
  | CallPlayer string
  | CallMatches "int option" "int option" "string option" "string option" "string option"
      "'dt timearg option" "'dt timearg option"

datatype ('r, 'o) retval =
  RetSelf ref | RetBody "'r document" | RetObj "'o shaped" | RetList "'o list"

fun exec ::
  "('r, 'o, 'dt) env \<Rightarrow> ref \<Rightarrow> 'dt call \<Rightarrow> state \<Rightarrow> (error + ('r, 'o) retval) \<times> state" where
  "exec E self (CallVainglory r) s =
     (case Vainglory self r s of (x, s') \<Rightarrow> (Inr (RetSelf x), s'))"
| "exec E self CallStatus s =
     (case status E self s of (x, s') \<Rightarrow> (map_sum id RetBody x, s'))"
| "exec E self (CallMatch elid) s =
     (case match E self elid s of (x, s') \<Rightarrow> (map_sum id RetObj x, s'))"
| "exec E self (CallPlayer elid) s =
     (case player E self elid s of (x, s') \<Rightarrow> (map_sum id RetObj x, s'))"
| "exec E self (CallMatches l off so p t cs ce) s =
     (case matches E self l off so p t cs ce s of (x, s') \<Rightarrow> (map_sum id RetList x, s'))"

text \<open>A program over the client: calls on client objects, one after the other.\<close>

fun run :: "('r, 'o, 'dt) env \<Rightarrow> (ref \<times> 'dt call) list \<Rightarrow> state \<Rightarrow> state" where
  "run E [] s = s"
| "run E ((self, c) # cs) s = run E cs (snd (exec E self c s))"

subsection \<open>Observing a run\<close>

text \<open>The request that the client \<open>c\<close> sends for the path \<open>method\<close>, as \<^verbatim>\<open>_req\<close> builds it.\<close>

definition http_request :: "client \<Rightarrow> string \<Rightarrow> pdict option \<Rightarrow> request" where
  "http_request c method ps =
     \<lparr>url = apiurl c @ method,
      headers = [(''Authorization'', ''Bearer '' @ apikey c),
                 (''X-TITLE-ID'', title c),
                 (''Accept'', ''application/vnd.api+json'')],
      params = ps\<rparr>"

text \<open>The requests sent between the state \<open>s\<close> and the later state \<open>s'\<close>.\<close>

definition issued :: "state \<Rightarrow> state \<Rightarrow> request list" where
  "issued s s' = drop (length (sent s)) (sent s')"

text \<open>The value of the query parameter \<open>k\<close> of a request; \<open>None\<close> when it has none.\<close>

definition param :: "request \<Rightarrow> string \<Rightarrow> pyval option" where
  "param r k = (case params r of None \<Rightarrow> None | Some q \<Rightarrow> map_of q k)"

text \<open>The entities of \<^verbatim>\<open>included\<close>, materialized in the order of the document.\<close>

definition pool :: "('r, 'o, 'dt) env \<Rightarrow> 'r document \<Rightarrow> 'o list" where
  "pool E doc = map (data_to_object E) (case included doc of None \<Rightarrow> [] | Some incls \<Rightarrow> incls)"



definition list_request :: "client \<Rightarrow> request \<Rightarrow> bool" where
  "list_request c r \<longleftrightarrow>
     url r = apiurl c @ ''shards/'' @ region c @ ''/matches/'' \<and>
     headers r = [(''Authorization'', ''Bearer '' @ apikey c),
                  (''X-TITLE-ID'', title c),
                  (''Accept'', ''application/vnd.api+json'')]"

subsection \<open>Concrete services and clients\<close>

text \<open>
  Raw entities are numbers and a domain object is a list of numbers: materializing
  wraps the entity, linking appends the entities of the pool. The first service answers
  every request with a list (whose first entity counts the requests before), the second
  with a single entity, the third fails on the second request.
\<close>

definition env_list :: "(nat, nat list, nat) env" where
  "env_list =
     \<lparr>transport = (\<lambda>h r. Inr \<lparr>included = Some [7, 8], data = Some (Many [length h, 2])\<rparr>),
      data_to_object = (\<lambda>r. [r]),
      link_to_object = (\<lambda>x incl. x @ concat incl),
      isoformat = (\<lambda>d. ''2017-02-03T04:05:06'')\<rparr>"

definition env_single :: "(nat, nat list, nat) env" where
  "env_single = env_list\<lparr>transport := (\<lambda>h r. Inr \<lparr>included = None, data = Some (Single 5)\<rparr>)\<rparr>"

definition env_fail :: "(nat, nat list, nat) env" where
  "env_fail =
     env_list\<lparr>transport := (\<lambda>h r. if length h = 1 then Inl (HTTPError 500)
                                    else Inr \<lparr>included = None, data = Some (Many [1, 2])\<rparr>)\<rparr>"

definition state_new :: state where
  "state_new = \<lparr>objs = (\<lambda>a. init ''key'' None), sent = []\<rparr>"

definition state_na :: state where
  "state_na = snd (Vainglory 0 None state_new)"

text \<open>A request of a list query by the client of \<open>state_na\<close> at reference 0.\<close>

definition batch_na :: "int \<Rightarrow> int \<Rightarrow> request" where
  "batch_na l off =
     \<lparr>url = ''https://api.dc01.gamelockerapp.com/shards/na/matches/'',
      headers = [(''Authorization'', ''Bearer key''),
                 (''X-TITLE-ID'', ''semc-vainglory''),
                 (''Accept'', ''application/vnd.api+json'')],
      params = Some [(''page[limit]'', PInt l), (''page[offset]'', PInt off)]\<rparr>"

section \<open>Properties\<close>

subsection \<open>Auxiliary facts\<close>

subsubsection \<open>Documents and single requests\<close>

lemma collect_includes_eq: "collect_includes E xs acc = acc @ map (data_to_object E) xs"
  by (induction xs arbitrary: acc) simp_all

lemma link_elements_eq:
  "link_elements E ds incl acc = acc @ map (\<lambda>d. link_to_object E (data_to_object E d) incl) ds"
  by (induction ds arbitrary: acc) (simp_all add: Let_def)

lemma req_eq:
  "req E self m ps s =
     (transport E (sent s) (http_request (objs s self) m ps),
      s\<lparr>sent := sent s @ [http_request (objs s self) m ps]\<rparr>)"
  by (simp add: req_def http_request_def Let_def)

lemma get_eq:
  "get E self ep elid ps s =
     (case transport E (sent s)
             (http_request (objs s self) (''shards/'' @ region (objs s self) @ ''/'' @ ep @ ''/'' @ elid) ps) of
        Inl e \<Rightarrow> Inl e
      | Inr doc \<Rightarrow>
         (case data doc of
            None \<Rightarrow> Inl (KeyError ''data'')
          | Some (Single dat) \<Rightarrow> Inr (Single (link_to_object E (data_to_object E dat) (pool E doc)))
          | Some (Many dats) \<Rightarrow>
              Inr (Many (map (\<lambda>dat. link_to_object E (data_to_object E dat) (pool E doc)) dats))),
      s\<lparr>sent := sent s @
         [http_request (objs s self) (''shards/'' @ region (objs s self) @ ''/'' @ ep @ ''/'' @ elid) ps]\<rparr>)"
  by (simp add: get_def req_eq Let_def pool_def collect_includes_eq link_elements_eq
           split: sum.splits option.splits shaped.splits)

subsubsection \<open>The range of the loop\<close>



lemma py_range_50: "py_range 0 50 50 = [0]"
  by (simp add: py_range.simps)

lemma py_range_single: "1 \<le> L \<Longrightarrow> L \<le> 50 \<Longrightarrow> py_range 0 L 50 = [0]"
  by (simp add: py_range.simps [of 0] py_range.simps [of 50])


subsubsection \<open>The dictionary of parameters\<close>



lemma map_of_set_int:
  "map_of (fst (set_int k x d ps)) k' =
     (if k' = k then (case x of None \<Rightarrow> map_of ps k | Some v \<Rightarrow> if v \<noteq> 0 then Some (PInt v) else map_of ps k)
      else map_of ps k')"
  by (simp add: set_int_def AList.update_conv' split: option.splits)

lemma map_of_set_str:
  "map_of (set_str k x ps) k' =
     (if k' = k then (case x of None \<Rightarrow> map_of ps k | Some v \<Rightarrow> if v \<noteq> [] then Some (PStr v) else map_of ps k)
      else map_of ps k')"
  by (simp add: set_str_def AList.update_conv' split: option.splits)

lemma map_of_set_time:
  "map_of (set_time E k x ps) k' =
     (if k' = k
      then (case x of None \<Rightarrow> map_of ps k
            | Some (DateTime d) \<Rightarrow> Some (PStr (isoformat E d))
            | Some (TimeStr v) \<Rightarrow> if v \<noteq> [] then Some (PStr v) else map_of ps k)
      else map_of ps k')"
  by (simp add: set_time_def AList.update_conv' split: option.splits timearg.splits)

lemma matches_params_keys:
  "map_of (fst (matches_params E l off so p t cs ce)) ''sort''
     = (case so of None \<Rightarrow> None | Some v \<Rightarrow> if v \<noteq> [] then Some (PStr v) else None)"
  "map_of (fst (matches_params E l off so p t cs ce)) ''filter[playerNames]''
     = (case p of None \<Rightarrow> None | Some v \<Rightarrow> if v \<noteq> [] then Some (PStr v) else None)"
  "map_of (fst (matches_params E l off so p t cs ce)) ''filter[teamNames]''
     = (case t of None \<Rightarrow> None | Some v \<Rightarrow> if v \<noteq> [] then Some (PStr v) else None)"
  "map_of (fst (matches_params E l off so p t cs ce)) ''filter[createdAt-start]''
     = (case cs of None \<Rightarrow> None | Some (DateTime d) \<Rightarrow> Some (PStr (isoformat E d))
        | Some (TimeStr v) \<Rightarrow> if v \<noteq> [] then Some (PStr v) else None)"
  "map_of (fst (matches_params E l off so p t cs ce)) ''filter[createdAt-end]''
     = (case ce of None \<Rightarrow> None | Some (DateTime d) \<Rightarrow> Some (PStr (isoformat E d))
        | Some (TimeStr v) \<Rightarrow> if v \<noteq> [] then Some (PStr v) else None)"
  by (simp_all add: matches_params_def Let_def split_beta map_of_set_int map_of_set_str map_of_set_time
        split: option.splits timearg.splits)

lemma matches_params_limit:
  "L \<noteq> 0 \<Longrightarrow> snd (matches_params E (Some L) offset so p t cs ce) = (L, case offset of None \<Rightarrow> 0 | Some x \<Rightarrow> x)"
  by (simp add: matches_params_def set_int_def Let_def split_beta split: option.splits)

lemma matches_params_zero:
  "matches_params E (Some 0) off so p t cs ce = matches_params E None off so p t cs ce"
  by (simp add: matches_params_def set_int_def)

lemma matches_params_default:
  "snd (matches_params E None off so p t cs ce) = (50, case off of None \<Rightarrow> 0 | Some x \<Rightarrow> x)"
  by (simp add: matches_params_def set_int_def Let_def split_beta max_limit_def split: option.splits)

lemma set_time_isoformat:
  "isoformat E d \<noteq> [] \<Longrightarrow>
   set_time E k (Some (DateTime d)) ps = set_time E k (Some (TimeStr (isoformat E d))) ps"
  by (simp add: set_time_def)

subsubsection \<open>The requests of the loop\<close>

lemma issued_append: "sent s' = sent s @ new \<Longrightarrow> issued s s' = new"
  by (simp add: issued_def)

lemma matches_loop_trace:
  "\<exists>new. sent (snd (matches_loop E self bs limit offset ps acc s)) = sent s @ new \<and>
         length new \<le> length bs \<and>
         (\<forall>r\<in>set new. list_request (objs s self) r \<and>
            param r ''page[limit]'' \<noteq> None \<and> param r ''page[offset]'' \<noteq> None \<and>
            (\<forall>k. k \<noteq> ''page[limit]'' \<and> k \<noteq> ''page[offset]'' \<longrightarrow> param r k = map_of ps k))"
proof (induction bs arbitrary: limit ps acc s)
  case Nil
  show ?case by simp
next
  case (Cons b bs)
  let ?ps = "AList.update ''page[offset]'' (PInt (b + offset))
               (AList.update ''page[limit]'' (PInt (min limit max_limit)) ps)"
  let ?R = "http_request (objs s self) (''shards/'' @ region (objs s self) @ ''/'' @ ''matches'' @ ''/'' @ '''') (Some ?ps)"
  let ?s1 = "s\<lparr>sent := sent s @ [?R]\<rparr>"
  have R: "list_request (objs s self) ?R \<and>
            param ?R ''page[limit]'' \<noteq> None \<and> param ?R ''page[offset]'' \<noteq> None \<and>
            (\<forall>k. k \<noteq> ''page[limit]'' \<and> k \<noteq> ''page[offset]'' \<longrightarrow> param ?R k = map_of ps k)"
    by (simp add: list_request_def http_request_def param_def AList.update_conv')
  obtain g where g: "get E self ''matches'' '''' (Some ?ps) s = (g, ?s1)"
    by (simp add: get_eq)
  show ?case
  proof (cases g)
    case (Inl e)
    with g R show ?thesis by (simp add: Let_def)
  next
    case (Inr x)
    show ?thesis
    proof (cases x)
      case (Single y)
      with g R Inr show ?thesis by (simp add: Let_def)
    next
      case (Many ys)
      from Cons.IH [of "limit - max_limit" ?ps "acc @ ys" ?s1]
      obtain new where new: "sent (snd (matches_loop E self bs (limit - max_limit) offset ?ps (acc @ ys) ?s1)) = sent ?s1 @ new"
        "length new \<le> length bs"
        "\<forall>r\<in>set new. list_request (objs ?s1 self) r \<and>
            param r ''page[limit]'' \<noteq> None \<and> param r ''page[offset]'' \<noteq> None \<and>
            (\<forall>k. k \<noteq> ''page[limit]'' \<and> k \<noteq> ''page[offset]'' \<longrightarrow> param r k = map_of ?ps k)"
        by blast
      have keep: "\<forall>k. k \<noteq> ''page[limit]'' \<and> k \<noteq> ''page[offset]'' \<longrightarrow> map_of ?ps k = map_of ps k"
        by (simp add: AList.update_conv')
      have "sent (snd (matches_loop E self (b # bs) limit offset ps acc s)) = sent s @ (?R # new)"
        using g Inr Many new(1) by (simp add: Let_def)
      moreover have "length (?R # new) \<le> length (b # bs)" using new(2) by simp
      moreover have "\<forall>r\<in>set (?R # new). list_request (objs s self) r \<and>
            param r ''page[limit]'' \<noteq> None \<and> param r ''page[offset]'' \<noteq> None \<and>
            (\<forall>k. k \<noteq> ''page[limit]'' \<and> k \<noteq> ''page[offset]'' \<longrightarrow> param r k = map_of ps k)"
        using R new(3) keep by simp
      ultimately show ?thesis by blast
    qed
  qed
qed

lemma matches_loop_objs:
  "objs (snd (matches_loop E self bs limit offset ps acc s)) = objs s"
proof (induction bs arbitrary: limit ps acc s)
  case Nil
  show ?case by simp
next
  case (Cons b bs)
  show ?case
    by (simp add: Let_def get_eq Cons.IH split: sum.splits option.splits shaped.splits)
qed

lemma matches_objs: "objs (snd (matches E self l off so p t cs ce s)) = objs s"
  by (simp add: matches_def matches_loop_objs split: prod.splits)

lemma matches_trace:
  "\<exists>new. sent (snd (matches E self l off so p t cs ce s)) = sent s @ new \<and>
         (\<forall>r\<in>set new. list_request (objs s self) r \<and>
            param r ''page[limit]'' \<noteq> None \<and> param r ''page[offset]'' \<noteq> None \<and>
            (\<forall>k. k \<noteq> ''page[limit]'' \<and> k \<noteq> ''page[offset]'' \<longrightarrow>
                 param r k = map_of (fst (matches_params E l off so p t cs ce)) k))"
proof -
  obtain ps lim off0 where mp: "matches_params E l off so p t cs ce = (ps, lim, off0)"
    by (cases "matches_params E l off so p t cs ce")
  show ?thesis
    using matches_loop_trace [of E self "py_range 0 lim max_limit" lim off0 ps "[]" s] mp
    by (auto simp add: matches_def)
qed

lemma matches_requests:
  assumes "r \<in> set (issued s (snd (matches E self l off so p t cs ce s)))"
  shows "list_request (objs s self) r"
    and "param r ''page[limit]'' \<noteq> None"
    and "param r ''page[offset]'' \<noteq> None"
    and "param r ''sort''
           = (case so of None \<Rightarrow> None | Some v \<Rightarrow> if v \<noteq> [] then Some (PStr v) else None)"
    and "param r ''filter[playerNames]''
           = (case p of None \<Rightarrow> None | Some v \<Rightarrow> if v \<noteq> [] then Some (PStr v) else None)"
    and "param r ''filter[teamNames]''
           = (case t of None \<Rightarrow> None | Some v \<Rightarrow> if v \<noteq> [] then Some (PStr v) else None)"
    and "param r ''filter[createdAt-start]''
           = (case cs of None \<Rightarrow> None | Some (DateTime d) \<Rightarrow> Some (PStr (isoformat E d))
              | Some (TimeStr v) \<Rightarrow> if v \<noteq> [] then Some (PStr v) else None)"
    and "param r ''filter[createdAt-end]''
           = (case ce of None \<Rightarrow> None | Some (DateTime d) \<Rightarrow> Some (PStr (isoformat E d))
              | Some (TimeStr v) \<Rightarrow> if v \<noteq> [] then Some (PStr v) else None)"
proof -
  obtain new where new: "sent (snd (matches E self l off so p t cs ce s)) = sent s @ new"
    and all: "\<forall>r\<in>set new. list_request (objs s self) r \<and>
            param r ''page[limit]'' \<noteq> None \<and> param r ''page[offset]'' \<noteq> None \<and>
            (\<forall>k. k \<noteq> ''page[limit]'' \<and> k \<noteq> ''page[offset]'' \<longrightarrow>
                 param r k = map_of (fst (matches_params E l off so p t cs ce)) k)"
    using matches_trace [of E self l off so p t cs ce s] by blast
  from new assms have r: "r \<in> set new" by (simp add: issued_append)
  with all have a: "list_request (objs s self) r" "param r ''page[limit]'' \<noteq> None"
    "param r ''page[offset]'' \<noteq> None"
    and k: "\<And>k. k \<noteq> ''page[limit]'' \<Longrightarrow> k \<noteq> ''page[offset]'' \<Longrightarrow>
                 param r k = map_of (fst (matches_params E l off so p t cs ce)) k"
    by blast+
  show "list_request (objs s self) r" "param r ''page[limit]'' \<noteq> None"
    "param r ''page[offset]'' \<noteq> None" by (rule a)+
  show "param r ''sort''
           = (case so of None \<Rightarrow> None | Some v \<Rightarrow> if v \<noteq> [] then Some (PStr v) else None)"
    by (simp add: k matches_params_keys(1))
  show "param r ''filter[playerNames]''
           = (case p of None \<Rightarrow> None | Some v \<Rightarrow> if v \<noteq> [] then Some (PStr v) else None)"
    by (simp add: k matches_params_keys(2))
  show "param r ''filter[teamNames]''
           = (case t of None \<Rightarrow> None | Some v \<Rightarrow> if v \<noteq> [] then Some (PStr v) else None)"
    by (simp add: k matches_params_keys(3))
  show "param r ''filter[createdAt-start]''
           = (case cs of None \<Rightarrow> None | Some (DateTime d) \<Rightarrow> Some (PStr (isoformat E d))
              | Some (TimeStr v) \<Rightarrow> if v \<noteq> [] then Some (PStr v) else None)"
    by (simp add: k matches_params_keys(4))
  show "param r ''filter[createdAt-end]''
           = (case ce of None \<Rightarrow> None | Some (DateTime d) \<Rightarrow> Some (PStr (isoformat E d))
              | Some (TimeStr v) \<Rightarrow> if v \<noteq> [] then Some (PStr v) else None)"
    by (simp add: k matches_params_keys(5))
qed

subsubsection \<open>A failing batch\<close>

lemma matches_loop_fail:
  "sent (snd (matches_loop E self bs limit offset ps acc s)) = sent s @ new \<Longrightarrow>
   i < length new \<Longrightarrow>
   transport E (sent s @ take i new) (new ! i) = Inl e \<Longrightarrow>
   fst (matches_loop E self bs limit offset ps acc s) = Inl e \<and> Suc i = length new"
proof (induction bs arbitrary: limit ps acc s new i)
  case Nil
  then show ?case by simp
next
  case (Cons b bs)
  let ?ps = "AList.update ''page[offset]'' (PInt (b + offset))
               (AList.update ''page[limit]'' (PInt (min limit max_limit)) ps)"
  let ?R = "http_request (objs s self) (''shards/'' @ region (objs s self) @ ''/'' @ ''matches'' @ ''/'' @ '''') (Some ?ps)"
  let ?s1 = "s\<lparr>sent := sent s @ [?R]\<rparr>"
  obtain g where g: "get E self ''matches'' '''' (Some ?ps) s = (g, ?s1)"
    by (simp add: get_eq)
  have stop: ?case if st: "matches_loop E self (b # bs) limit offset ps acc s = (Inl x, ?s1)"
    and tr: "\<And>e'. transport E (sent s) ?R = Inl e' \<Longrightarrow> x = e'" for x
  proof -
    from st Cons.prems(1) have new: "new = [?R]" by simp
    with Cons.prems(2) have i: "i = 0" by simp
    from Cons.prems(3) new i have "transport E (sent s) ?R = Inl e" by simp
    with tr have "x = e" by simp
    with st new i show ?thesis by simp
  qed
  show ?case
  proof (cases "transport E (sent s) ?R")
    case (Inl e')
    then have "matches_loop E self (b # bs) limit offset ps acc s = (Inl e', ?s1)"
      by (simp add: get_eq Let_def)
    then show ?thesis using Inl by (intro stop [of e']) simp_all
  next
    case (Inr doc)
    show ?thesis
    proof (cases "data doc")
      case None
      then have "matches_loop E self (b # bs) limit offset ps acc s = (Inl (KeyError ''data''), ?s1)"
        using Inr by (simp add: get_eq Let_def)
      then show ?thesis using Inr by (intro stop [of "KeyError ''data''"]) simp_all
    next
      case (Some d)
      show ?thesis
      proof (cases d)
        case (Single x)
        then have "matches_loop E self (b # bs) limit offset ps acc s = (Inl TypeError, ?s1)"
          using Inr Some by (simp add: get_eq Let_def)
        then show ?thesis using Inr by (intro stop [of TypeError]) simp_all
      next
        case (Many dats)
        let ?els = "map (\<lambda>dat. link_to_object E (data_to_object E dat) (pool E doc)) dats"
        have step: "matches_loop E self (b # bs) limit offset ps acc s =
                    matches_loop E self bs (limit - max_limit) offset ?ps (acc @ ?els) ?s1"
          using Inr Some Many by (simp add: get_eq Let_def)
        obtain new' where new': "sent (snd (matches_loop E self bs (limit - max_limit) offset ?ps (acc @ ?els) ?s1)) = sent ?s1 @ new'"
          using matches_loop_trace [of E self bs "limit - max_limit" offset ?ps "acc @ ?els" ?s1] by blast
        with Cons.prems(1) step have new: "new = ?R # new'" by simp
        show ?thesis
        proof (cases i)
          case 0
          with Cons.prems(3) new Inr show ?thesis by simp
        next
          case (Suc j)
          have "fst (matches_loop E self bs (limit - max_limit) offset ?ps (acc @ ?els) ?s1) = Inl e \<and> Suc j = length new'"
          proof (rule Cons.IH [OF new'])
            show "j < length new'" using Cons.prems(2) new Suc by simp
            show "transport E (sent ?s1 @ take j new') (new' ! j) = Inl e"
              using Cons.prems(3) new Suc by simp
          qed
          then show ?thesis using step new Suc by simp
        qed
      qed
    qed
  qed
qed

lemma matches_fail:
  assumes "i < length (issued s (snd (matches E self l off so p t cs ce s)))"
    and "transport E (sent s @ take i (issued s (snd (matches E self l off so p t cs ce s))))
           (issued s (snd (matches E self l off so p t cs ce s)) ! i) = Inl e"
  shows "fst (matches E self l off so p t cs ce s) = Inl e \<and>
         Suc i = length (issued s (snd (matches E self l off so p t cs ce s)))"
proof -
  obtain ps lim off0 where mp: "matches_params E l off so p t cs ce = (ps, lim, off0)"
    by (cases "matches_params E l off so p t cs ce")
  then have m: "matches E self l off so p t cs ce s = matches_loop E self (py_range 0 lim max_limit) lim off0 ps [] s"
    by (simp add: matches_def)
  obtain new where new: "sent (snd (matches_loop E self (py_range 0 lim max_limit) lim off0 ps [] s)) = sent s @ new"
    using matches_loop_trace [of E self "py_range 0 lim max_limit" lim off0 ps "[]" s] by blast
  then have iss: "issued s (snd (matches_loop E self (py_range 0 lim max_limit) lim off0 ps [] s)) = new"
    by (simp add: issued_append)
  show ?thesis
    using matches_loop_fail [OF new, of i e] assms by (simp add: m iss)
qed

subsubsection \<open>Batches that all succeed\<close>


subsubsection \<open>The public calls\<close>

lemma exec_objs:
  "apikey (objs (snd (exec E self c s)) a) = apikey (objs s a) \<and>
   apiurl (objs (snd (exec E self c s)) a) = apiurl (objs s a)"
proof (cases c)
  case (CallVainglory r)
  then show ?thesis by (simp add: Vainglory_def Let_def)
next
  case CallStatus
  then show ?thesis by (simp add: status_def req_eq)
next
  case (CallMatch x)
  then show ?thesis by (simp add: match_def get_eq)
next
  case (CallPlayer x)
  then show ?thesis by (simp add: player_def get_eq)
next
  case (CallMatches l off so p t cs ce)
  then show ?thesis by (simp add: matches_objs split_beta)
qed

lemma exec_trace:
  "\<exists>new. sent (snd (exec E self c s)) = sent s @ new \<and>
     (\<forall>r\<in>set new. headers r = [(''Authorization'', ''Bearer '' @ apikey (objs s self)),
                                 (''X-TITLE-ID'', title (objs s self)),
                                 (''Accept'', ''application/vnd.api+json'')])"
proof (cases c)
  case (CallVainglory r)
  then show ?thesis by (simp add: Vainglory_def Let_def)
next
  case CallStatus
  then show ?thesis by (simp add: status_def req_eq http_request_def)
next
  case (CallMatch x)
  then show ?thesis by (simp add: match_def get_eq http_request_def)
next
  case (CallPlayer x)
  then show ?thesis by (simp add: player_def get_eq http_request_def)
next
  case (CallMatches l off so p t cs ce)
  then show ?thesis
    using matches_trace [of E self l off so p t cs ce s]
    by (auto simp add: split_beta list_request_def)
qed

lemma exec_sent: "sent (snd (exec E self c s)) = sent s @ issued s (snd (exec E self c s))"
  using exec_trace [of E self c s] by (auto simp add: issued_def)

lemma exec_fail:
  assumes "i < length (issued s (snd (exec E self c s)))"
    and "transport E (sent s @ take i (issued s (snd (exec E self c s))))
           (issued s (snd (exec E self c s)) ! i) = Inl e"
  shows "fst (exec E self c s) = Inl e \<and> Suc i = length (issued s (snd (exec E self c s)))"
proof (cases c)
  case (CallVainglory r)
  with assms(1) show ?thesis by (simp add: Vainglory_def Let_def issued_def)
next
  case CallStatus
  with assms show ?thesis by (simp add: status_def req_eq issued_def)
next
  case (CallMatch x)
  with assms show ?thesis by (simp add: match_def get_eq issued_def)
next
  case (CallPlayer x)
  with assms show ?thesis by (simp add: player_def get_eq issued_def)
next
  case (CallMatches l off so p t cs ce)
  with assms matches_fail [of i s E self l off so p t cs ce e]
  show ?thesis by (simp add: split_beta)
qed

subsubsection \<open>Runs of the concrete services\<close>

lemma state_na_client:
  "objs state_na a =
     (if a = 0
      then \<lparr>apikey = ''key'', apiurl = ''https://api.dc01.gamelockerapp.com/'',
            title = ''semc-vainglory'', region = ''na''\<rparr>
      else \<lparr>apikey = ''key'', apiurl = ''https://api.dc01.gamelockerapp.com/'',
            title = '''', region = ''''\<rparr>)"
  by (simp add: state_na_def state_new_def Vainglory_def init_def)

lemma state_na_sent: "sent state_na = []"
  by (simp add: state_na_def state_new_def Vainglory_def)

lemma issued_state_na: "issued state_na (state_na\<lparr>sent := rs\<rparr>) = rs"
  by (simp add: issued_def state_na_sent)

lemma param_batch_na:
  "param (batch_na l off) k =
     (if k = ''page[limit]'' then Some (PInt l)
      else if k = ''page[offset]'' then Some (PInt off) else None)"
  by (simp add: param_def batch_na_def)

lemma run_list_120:
  "matches env_list 0 (Some 120) None None None None None None state_na =
     (Inr [[0, 7, 8], [2, 7, 8], [1, 7, 8], [2, 7, 8], [2, 7, 8], [2, 7, 8]],
      state_na\<lparr>sent := [batch_na 50 0, batch_na 50 50, batch_na 20 100]\<rparr>)"
  by (simp add: matches_def matches_params_def set_int_def set_str_def set_time_def
        py_range.simps max_limit_def Let_def get_eq pool_def env_list_def
        state_na_sent state_na_client http_request_def batch_na_def)

lemma run_list_default:
  "matches env_list 0 None None None None None None None state_na =
     (Inr [[0, 7, 8], [2, 7, 8]], state_na\<lparr>sent := [batch_na 50 0]\<rparr>)"
  by (simp add: matches_def matches_params_def set_int_def set_str_def set_time_def
        py_range.simps max_limit_def Let_def get_eq pool_def env_list_def
        state_na_sent state_na_client http_request_def batch_na_def)

lemma run_fail_120:
  "matches env_fail 0 (Some 120) None None None None None None state_na =
     (Inl (HTTPError 500), state_na\<lparr>sent := [batch_na 50 0, batch_na 50 50]\<rparr>)"
  by (simp add: matches_def matches_params_def set_int_def set_str_def set_time_def
        py_range.simps max_limit_def Let_def get_eq pool_def env_fail_def env_list_def
        state_na_sent state_na_client http_request_def batch_na_def)

lemma run_list_datetime:
  "matches env_list 0 None None None None None (Some (DateTime 3)) None state_na =
     (Inr [[0, 7, 8], [2, 7, 8]],
      state_na\<lparr>sent :=
        [\<lparr>url = ''https://api.dc01.gamelockerapp.com/shards/na/matches/'',
          headers = [(''Authorization'', ''Bearer key''),
                     (''X-TITLE-ID'', ''semc-vainglory''),
                     (''Accept'', ''application/vnd.api+json'')],
          params = Some [(''filter[createdAt-start]'', PStr ''2017-02-03T04:05:06''),
                         (''page[limit]'', PInt 50), (''page[offset]'', PInt 0)]\<rparr>]\<rparr>)"
  by (simp add: matches_def matches_params_def set_int_def set_str_def set_time_def
        py_range.simps max_limit_def Let_def get_eq pool_def env_list_def
        state_na_sent state_na_client http_request_def)

subsection \<open>Documents\<close>

text \<open>
  C2. Whatever document a request of \<^verbatim>\<open>_get\<close> fetches, the result of \<^verbatim>\<open>_get\<close> has the
  shape of the document's \<^verbatim>\<open>data\<close>: for a list, the list, in the document's order,
  of its entities, each materialized and linked against the pool; for a single entity,
  that entity materialized and linked against the pool. The pool is the list of the
  entities of \<^verbatim>\<open>included\<close>, materialized in the document's order, and empty when the
  document has no \<^verbatim>\<open>included\<close>. (A document without \<^verbatim>\<open>data\<close> is a \<^verbatim>\<open>KeyError\<close>.)
\<close>

theorem get_links_document:
  assumes "fst (req E self (''shards/'' @ region (objs s self) @ ''/'' @ endpoint @ ''/'' @ elid) ps s)
             = Inr doc"
  shows "fst (get E self endpoint elid ps s) =
     (case data doc of
        None \<Rightarrow> Inl (KeyError ''data'')
      | Some (Single dat) \<Rightarrow>
          Inr (Single (link_to_object E (data_to_object E dat)
                 (map (data_to_object E) (case included doc of None \<Rightarrow> [] | Some incls \<Rightarrow> incls))))
      | Some (Many dats) \<Rightarrow>
          Inr (Many (map (\<lambda>dat. link_to_object E (data_to_object E dat)
                 (map (data_to_object E) (case included doc of None \<Rightarrow> [] | Some incls \<Rightarrow> incls)))
                 dats)))"
  using assms by (simp add: get_eq req_eq pool_def split: option.splits shaped.splits)

theorem get_links_document_witness:
  "fst (req env_list 0 (''shards/'' @ region (objs state_na 0) @ ''/'' @ ''matches'' @ ''/'' @ ''abc'')
          None state_na)
     = Inr \<lparr>included = Some [7, 8], data = Some (Many [0, 2])\<rparr> \<and>
   fst (get env_list 0 ''matches'' ''abc'' None state_na) = Inr (Many [[0, 7, 8], [2, 7, 8]]) \<and>
   fst (req env_single 0 (''shards/'' @ region (objs state_na 0) @ ''/'' @ ''matches'' @ ''/'' @ ''abc'')
          None state_na)
     = Inr \<lparr>included = None, data = Some (Single 5)\<rparr> \<and>
   fst (get env_single 0 ''matches'' ''abc'' None state_na) = Inr (Single [5])"
proof -
  have a: "fst (req env_list 0 (''shards/'' @ region (objs state_na 0) @ ''/'' @ ''matches'' @ ''/'' @ ''abc'')
                  None state_na)
             = Inr \<lparr>included = Some [7, 8], data = Some (Many [0, 2])\<rparr>"
    by (simp add: req_eq env_list_def state_na_sent)
  have b: "fst (req env_single 0 (''shards/'' @ region (objs state_na 0) @ ''/'' @ ''matches'' @ ''/'' @ ''abc'')
                  None state_na)
             = Inr \<lparr>included = None, data = Some (Single 5)\<rparr>"
    by (simp add: req_eq env_single_def env_list_def state_na_sent)
  show ?thesis
    using a b get_links_document [OF a] get_links_document [OF b]
    by (simp add: env_list_def env_single_def)
qed

subsection \<open>Title selection\<close>

text \<open>
  C8. For every client object and every region argument (any string at all, or none,
  which stands for \<^verbatim>\<open>"na"\<close>), \<^verbatim>\<open>Vainglory\<close> returns the reference of the client it was
  called on, sets that client's title to \<^verbatim>\<open>"semc-vainglory"\<close> and its region to the
  argument, and leaves its API key and its base URL as they were; it sends nothing.
\<close>

theorem Vainglory_sets_title_and_region:
  "fst (Vainglory self region_arg s) = self \<and>
   title (objs (snd (Vainglory self region_arg s)) self) = ''semc-vainglory'' \<and>
   region (objs (snd (Vainglory self region_arg s)) self)
     = (case region_arg of None \<Rightarrow> ''na'' | Some r \<Rightarrow> r) \<and>
   apikey (objs (snd (Vainglory self region_arg s)) self) = apikey (objs s self) \<and>
   apiurl (objs (snd (Vainglory self region_arg s)) self) = apiurl (objs s self) \<and>
   sent (snd (Vainglory self region_arg s)) = sent s"
  by (simp add: Vainglory_def Let_def)

subsection \<open>Pagination\<close>



text \<open>
  A limit between 1 and 50 needs no hypothesis on the service: whatever the answer, one
  request is sent, with the limit itself as \<^verbatim>\<open>page[limit]\<close>. With limit 30 this is
  the second example of C1.
\<close>

lemma matches_single_batch:
  assumes "1 \<le> L" and "L \<le> 50"
  shows "map (\<lambda>r. (param r ''page[limit]'', param r ''page[offset]''))
           (issued s (snd (matches E self (Some L) off so p t cs ce s)))
         = [(Some (PInt L), Some (PInt (case off of None \<Rightarrow> 0 | Some x \<Rightarrow> x)))]"
proof -
  define P where "P = fst (matches_params E (Some L) off so p t cs ce)"
  let ?O = "case off of None \<Rightarrow> 0 | Some x \<Rightarrow> x"
  have mp: "matches_params E (Some L) off so p t cs ce = (P, L, ?O)"
    using assms(1) matches_params_limit [of L E off so p t cs ce]
    by (simp add: prod_eq_iff P_def)
  have m: "matches E self (Some L) off so p t cs ce s = matches_loop E self [0] L ?O P [] s"
    using assms by (simp add: matches_def mp max_limit_def py_range_single)
  have "map (\<lambda>r. (param r ''page[limit]'', param r ''page[offset]''))
          (issued s (snd (matches_loop E self [0] L ?O P [] s)))
        = [(Some (PInt L), Some (PInt ?O))]"
    using assms(2)
    by (simp add: Let_def get_eq issued_def http_request_def param_def AList.update_conv'
          max_limit_def split: sum.splits option.splits shaped.splits)
  then show ?thesis by (simp only: m)
qed

lemma matches_limit_30:
  "map (\<lambda>r. param r ''page[limit]'')
     (issued s (snd (matches E self (Some 30) off so p t cs ce s))) = [Some (PInt 30)]"
proof -
  have "map fst (map (\<lambda>r. (param r ''page[limit]'', param r ''page[offset]''))
           (issued s (snd (matches E self (Some 30) off so p t cs ce s)))) = [Some (PInt 30)]"
    by (simp only: matches_single_batch [of 30]) simp
  then show ?thesis by (simp add: comp_def)
qed

subsection \<open>Query parameters\<close>

text \<open>
  C3 says that \<^verbatim>\<open>page[limit]\<close> and \<^verbatim>\<open>page[offset]\<close>, like the five other query
  parameters, are left out of every request when the caller has not supplied the
  argument. The loop of \<^verbatim>\<open>matches\<close> assigns both on every iteration: a call without
  any argument sends one request, with \<^verbatim>\<open>page[limit]\<close> 50 and \<^verbatim>\<open>page[offset]\<close> 0.
\<close>

theorem matches_without_arguments_sends_page_parameters:
  "issued state_na (snd (matches env_list 0 None None None None None None None state_na))
     = [batch_na 50 0] \<and>
   param (batch_na 50 0) ''page[limit]'' = Some (PInt 50) \<and>
   param (batch_na 50 0) ''page[offset]'' = Some (PInt 0)"
  by (simp add: run_list_default issued_state_na param_batch_na)

text \<open>
  C3, as the code has it. In every request of a call of \<^verbatim>\<open>matches\<close>, each of \<^verbatim>\<open>sort\<close>,
  \<^verbatim>\<open>filter[playerNames]\<close>, \<^verbatim>\<open>filter[teamNames]\<close>, \<^verbatim>\<open>filter[createdAt-start]\<close> and
  \<^verbatim>\<open>filter[createdAt-end]\<close> is absent when the caller has not supplied its argument,
  and \<^verbatim>\<open>page[limit]\<close> and \<^verbatim>\<open>page[offset]\<close> are present, whatever the caller supplied.
\<close>

theorem matches_omits_unsupplied_filters:
  "\<forall>r \<in> set (issued s (snd (matches E self l off so p t cs ce s))).
     (so = None \<longrightarrow> param r ''sort'' = None) \<and>
     (p = None \<longrightarrow> param r ''filter[playerNames]'' = None) \<and>
     (t = None \<longrightarrow> param r ''filter[teamNames]'' = None) \<and>
     (cs = None \<longrightarrow> param r ''filter[createdAt-start]'' = None) \<and>
     (ce = None \<longrightarrow> param r ''filter[createdAt-end]'' = None) \<and>
     param r ''page[limit]'' \<noteq> None \<and>
     param r ''page[offset]'' \<noteq> None"
proof
  fix r
  assume r: "r \<in> set (issued s (snd (matches E self l off so p t cs ce s)))"
  show "(so = None \<longrightarrow> param r ''sort'' = None) \<and>
     (p = None \<longrightarrow> param r ''filter[playerNames]'' = None) \<and>
     (t = None \<longrightarrow> param r ''filter[teamNames]'' = None) \<and>
     (cs = None \<longrightarrow> param r ''filter[createdAt-start]'' = None) \<and>
     (ce = None \<longrightarrow> param r ''filter[createdAt-end]'' = None) \<and>
     param r ''page[limit]'' \<noteq> None \<and>
     param r ''page[offset]'' \<noteq> None"
    using matches_requests [OF r] by simp
qed

theorem matches_omits_unsupplied_filters_witness:
  "batch_na 20 100
     \<in> set (issued state_na (snd (matches env_list 0 (Some 120) None None None None None None state_na))) \<and>
   param (batch_na 20 100) ''sort'' = None \<and>
   param (batch_na 20 100) ''filter[playerNames]'' = None \<and>
   param (batch_na 20 100) ''filter[teamNames]'' = None \<and>
   param (batch_na 20 100) ''filter[createdAt-start]'' = None \<and>
   param (batch_na 20 100) ''filter[createdAt-end]'' = None \<and>
   param (batch_na 20 100) ''page[limit]'' = Some (PInt 20) \<and>
   param (batch_na 20 100) ''page[offset]'' = Some (PInt 100)"
proof -
  have r: "batch_na 20 100
     \<in> set (issued state_na (snd (matches env_list 0 (Some 120) None None None None None None state_na)))"
    by (simp add: run_list_120 issued_state_na)
  show ?thesis
    using r matches_omits_unsupplied_filters
            [of state_na env_list 0 "Some 120" None None None None None None, THEN bspec, OF r]
    by (simp add: param_batch_na)
qed

subsection \<open>Paths and headers\<close>

text \<open>
  C4 says that the path of a list call is \<^verbatim>\<open>shards/<region>/matches\<close>, with nothing
  after the endpoint. \<^verbatim>\<open>_get\<close> always appends a slash and the id, and for a list call
  the id is the empty string: the path ends in a slash.
\<close>

theorem list_path_has_trailing_slash:
  "issued state_na (snd (matches env_list 0 None None None None None None None state_na))
     = [batch_na 50 0] \<and>
   url (batch_na 50 0) = ''https://api.dc01.gamelockerapp.com/shards/na/matches/'' \<and>
   url (batch_na 50 0)
     \<noteq> apiurl (objs state_na 0) @ ''shards/'' @ region (objs state_na 0) @ ''/matches''"
  by (simp add: run_list_default issued_state_na batch_na_def state_na_client)

text \<open>
  C4, as the code has it. The path of every shard-scoped request is
  \<^verbatim>\<open>shards/<region>/<endpoint>/<id>\<close>, after the base URL:
  \<^verbatim>\<open>shards/<region>/matches/<id>\<close> for the one request of \<^verbatim>\<open>match(id)\<close>,
  \<^verbatim>\<open>shards/<region>/players/<id>\<close> for the one request of \<^verbatim>\<open>player(id)\<close>, and
  \<^verbatim>\<open>shards/<region>/matches/\<close>, the id being empty, for every request of
  \<^verbatim>\<open>matches\<close>.
\<close>

theorem shard_paths:
  "map url (issued s (snd (match E self elid s)))
     = [apiurl (objs s self) @ ''shards/'' @ region (objs s self) @ ''/matches/'' @ elid] \<and>
   map url (issued s (snd (player E self elid s)))
     = [apiurl (objs s self) @ ''shards/'' @ region (objs s self) @ ''/players/'' @ elid] \<and>
   (\<forall>r \<in> set (issued s (snd (matches E self l off so p t cs ce s))).
      url r = apiurl (objs s self) @ ''shards/'' @ region (objs s self) @ ''/matches/'')"
proof -
  have "\<forall>r \<in> set (issued s (snd (matches E self l off so p t cs ce s))).
      url r = apiurl (objs s self) @ ''shards/'' @ region (objs s self) @ ''/matches/''"
    using matches_requests(1) [of _ s E self l off so p t cs ce]
    by (simp add: list_request_def)
  then show ?thesis
    by (simp add: match_def player_def get_eq issued_def http_request_def)
qed

theorem shard_paths_witness:
  "map url (issued state_na (snd (match env_list 0 ''abc'' state_na)))
     = [''https://api.dc01.gamelockerapp.com/shards/na/matches/abc''] \<and>
   map url (issued state_na (snd (player env_list 0 ''xyz'' state_na)))
     = [''https://api.dc01.gamelockerapp.com/shards/na/players/xyz''] \<and>
   batch_na 20 100
     \<in> set (issued state_na (snd (matches env_list 0 (Some 120) None None None None None None state_na))) \<and>
   url (batch_na 20 100) = ''https://api.dc01.gamelockerapp.com/shards/na/matches/''"
proof -
  have r: "batch_na 20 100
     \<in> set (issued state_na (snd (matches env_list 0 (Some 120) None None None None None None state_na)))"
    by (simp add: run_list_120 issued_state_na)
  note T = shard_paths [of state_na env_list 0 _ "Some 120" None None None None None None]
  show ?thesis
    using r T [of "''abc''", THEN conjunct1]
      T [of "''xyz''", THEN conjunct2, THEN conjunct1]
      T [of "''abc''", THEN conjunct2, THEN conjunct2, THEN bspec, OF r]
    by (simp add: state_na_client)
qed

text \<open>
  C5. Every request that a public call sends (the one of \<^verbatim>\<open>status\<close>, \<^verbatim>\<open>match\<close> or
  \<^verbatim>\<open>player\<close>, and each batch of \<^verbatim>\<open>matches\<close>) carries exactly three headers:
  \<^verbatim>\<open>Authorization\<close> with \<^verbatim>\<open>Bearer\<close> and the client's API key, \<^verbatim>\<open>X-TITLE-ID\<close> with the
  client's title, and \<^verbatim>\<open>Accept\<close> with \<^verbatim>\<open>application/vnd.api+json\<close>. The title of a
  new client, for which no title has been selected, is the empty string.
\<close>

theorem request_headers:
  "title (init key datacenter) = '''' \<and>
   (\<forall>r \<in> set (issued s (snd (exec E self c s))).
      headers r = [(''Authorization'', ''Bearer '' @ apikey (objs s self)),
                   (''X-TITLE-ID'', title (objs s self)),
                   (''Accept'', ''application/vnd.api+json'')])"
  using exec_trace [of E self c s]
  by (auto simp add: init_def Let_def issued_def)

theorem request_headers_witness:
  "batch_na 20 100
     \<in> set (issued state_na
          (snd (exec env_list 0 (CallMatches (Some 120) None None None None None None) state_na))) \<and>
   headers (batch_na 20 100)
     = [(''Authorization'', ''Bearer key''),
        (''X-TITLE-ID'', ''semc-vainglory''),
        (''Accept'', ''application/vnd.api+json'')] \<and>
   issued state_new (snd (exec env_list 0 CallStatus state_new))
     = [\<lparr>url = ''https://api.dc01.gamelockerapp.com/status'',
         headers = [(''Authorization'', ''Bearer key''),
                    (''X-TITLE-ID'', ''''),
                    (''Accept'', ''application/vnd.api+json'')],
         params = None\<rparr>]"
proof -
  have r: "batch_na 20 100
     \<in> set (issued state_na
          (snd (exec env_list 0 (CallMatches (Some 120) None None None None None None) state_na)))"
    by (simp add: run_list_120 issued_state_na)
  have st: "issued state_new (snd (exec env_list 0 CallStatus state_new))
     = [\<lparr>url = ''https://api.dc01.gamelockerapp.com/status'',
         headers = [(''Authorization'', ''Bearer key''),
                    (''X-TITLE-ID'', ''''),
                    (''Accept'', ''application/vnd.api+json'')],
         params = None\<rparr>]"
    by (simp add: status_def req_eq http_request_def issued_def state_new_def init_def)
  show ?thesis
    using r st
      request_headers [of "''key''" None state_na env_list 0
        "CallMatches (Some 120) None None None None None None", THEN conjunct2, THEN bspec, OF r]
    by (simp add: state_na_client)
qed

subsection \<open>Errors of the transport\<close>

text \<open>
  C6. If the transport answers a request of a public call with an error, then the call
  ends with that very error, which carries no result, and the request was the last one
  the call has sent: nothing is sent again, and no later batch is asked for. For
  \<^verbatim>\<open>matches\<close>, the objects of the batches before the failing one are not returned.
\<close>

theorem transport_error_is_raised:
  assumes "i < length (issued s (snd (exec E self c s)))"
    and "transport E (sent s @ take i (issued s (snd (exec E self c s))))
           (issued s (snd (exec E self c s)) ! i) = Inl e"
  shows "fst (exec E self c s) = Inl e \<and> Suc i = length (issued s (snd (exec E self c s)))"
  using assms by (rule exec_fail)

theorem transport_error_is_raised_witness:
  "issued state_na
     (snd (exec env_fail 0 (CallMatches (Some 120) None None None None None None) state_na))
     = [batch_na 50 0, batch_na 50 50] \<and>
   transport env_fail (sent state_na @ take 1 [batch_na 50 0, batch_na 50 50])
     ([batch_na 50 0, batch_na 50 50] ! 1) = Inl (HTTPError 500) \<and>
   fst (exec env_fail 0 (CallMatches (Some 120) None None None None None None) state_na)
     = Inl (HTTPError 500)"
proof -
  have iss: "issued state_na
     (snd (exec env_fail 0 (CallMatches (Some 120) None None None None None None) state_na))
     = [batch_na 50 0, batch_na 50 50]"
    by (simp add: run_fail_120 issued_state_na)
  have i: "1 < length (issued state_na
     (snd (exec env_fail 0 (CallMatches (Some 120) None None None None None None) state_na)))"
    by (simp add: run_fail_120 issued_state_na)
  have t1: "transport env_fail [batch_na 50 0] (batch_na 50 50) = Inl (HTTPError 500)"
    by (simp add: env_fail_def)
  have tr: "transport env_fail (sent state_na @ take 1 (issued state_na
       (snd (exec env_fail 0 (CallMatches (Some 120) None None None None None None) state_na))))
     (issued state_na
       (snd (exec env_fail 0 (CallMatches (Some 120) None None None None None None) state_na)) ! 1)
     = Inl (HTTPError 500)"
    by (simp add: run_fail_120 issued_state_na state_na_sent t1)
  show ?thesis
    using iss tr transport_error_is_raised [OF i tr]
    by (simp add: run_fail_120 issued_state_na state_na_sent t1)
qed

subsection \<open>Dates and the default limit\<close>

text \<open>
  C7. For every \<^verbatim>\<open>datetime\<close> \<open>d\<close>, a call of \<^verbatim>\<open>matches\<close> with \<^verbatim>\<open>createdAtStart\<close> \<open>d\<close>
  is the same run as the call with the string \<^verbatim>\<open>d.isoformat()\<close> in its place: the same
  requests, with the same parameters, are sent and the same result is returned; and so
  it is for \<^verbatim>\<open>createdAtEnd\<close>. Every request of the call then carries
  \<^verbatim>\<open>filter[createdAt-start]\<close> (\<^verbatim>\<open>filter[createdAt-end]\<close>) with the value
  \<^verbatim>\<open>d.isoformat()\<close>. The hypothesis is a fact about Python's \<^verbatim>\<open>isoformat\<close>, which is a
  parameter here: its result, at least \<^verbatim>\<open>YYYY-MM-DDTHH:MM:SS\<close>, is never empty.
\<close>

theorem datetime_as_isoformat_string:
  assumes "isoformat E d \<noteq> []"
  shows "matches E self l off so p t (Some (DateTime d)) ce s
           = matches E self l off so p t (Some (TimeStr (isoformat E d))) ce s \<and>
         matches E self l off so p t cs (Some (DateTime d)) s
           = matches E self l off so p t cs (Some (TimeStr (isoformat E d))) s \<and>
         (\<forall>r \<in> set (issued s (snd (matches E self l off so p t (Some (DateTime d)) ce s))).
            param r ''filter[createdAt-start]'' = Some (PStr (isoformat E d))) \<and>
         (\<forall>r \<in> set (issued s (snd (matches E self l off so p t cs (Some (DateTime d)) s))).
            param r ''filter[createdAt-end]'' = Some (PStr (isoformat E d)))"
proof -
  have a: "matches_params E l off so p t (Some (DateTime d)) ce
             = matches_params E l off so p t (Some (TimeStr (isoformat E d))) ce"
    and b: "matches_params E l off so p t cs (Some (DateTime d))
             = matches_params E l off so p t cs (Some (TimeStr (isoformat E d)))"
    using assms by (simp_all add: matches_params_def set_time_isoformat)
  have c: "\<forall>r \<in> set (issued s (snd (matches E self l off so p t (Some (DateTime d)) ce s))).
            param r ''filter[createdAt-start]'' = Some (PStr (isoformat E d))"
    using matches_requests(7) [of _ s E self l off so p t "Some (DateTime d)" ce] by simp
  have e: "\<forall>r \<in> set (issued s (snd (matches E self l off so p t cs (Some (DateTime d)) s))).
            param r ''filter[createdAt-end]'' = Some (PStr (isoformat E d))"
    using matches_requests(8) [of _ s E self l off so p t cs "Some (DateTime d)"] by simp
  show ?thesis using c e by (simp add: matches_def a b)
qed

theorem datetime_as_isoformat_string_witness:
  "isoformat env_list 3 = ''2017-02-03T04:05:06'' \<and>
   isoformat env_list 3 \<noteq> [] \<and>
   matches env_list 0 None None None None None (Some (TimeStr ''2017-02-03T04:05:06'')) None state_na
     = (Inr [[0, 7, 8], [2, 7, 8]],
        state_na\<lparr>sent :=
          [\<lparr>url = ''https://api.dc01.gamelockerapp.com/shards/na/matches/'',
            headers = [(''Authorization'', ''Bearer key''),
                       (''X-TITLE-ID'', ''semc-vainglory''),
                       (''Accept'', ''application/vnd.api+json'')],
            params = Some [(''filter[createdAt-start]'', PStr ''2017-02-03T04:05:06''),
                           (''page[limit]'', PInt 50), (''page[offset]'', PInt 0)]\<rparr>]\<rparr>)"
proof -
  have iso: "isoformat env_list 3 = ''2017-02-03T04:05:06''"
    by (simp add: env_list_def)
  have ne: "isoformat env_list (3::nat) \<noteq> []"
    by (simp add: env_list_def)
  show ?thesis
    using iso ne
      datetime_as_isoformat_string [OF ne, of 0 None None None None None None state_na,
        THEN conjunct1]
    by (simp add: run_list_datetime)
qed

text \<open>
  C9. A call of \<^verbatim>\<open>matches\<close> with the limit 0 is the same run as the call without a
  limit, whatever the other arguments: exactly one request is sent, and it carries
  \<^verbatim>\<open>page[limit]\<close> 50.
\<close>

theorem limit_zero_is_default:
  "matches E self (Some 0) off so p t cs ce s = matches E self None off so p t cs ce s \<and>
   map (\<lambda>r. param r ''page[limit]'') (issued s (snd (matches E self (Some 0) off so p t cs ce s)))
     = [Some (PInt 50)]"
proof -
  define P where "P = fst (matches_params E None off so p t cs ce)"
  let ?O = "case off of None \<Rightarrow> 0 | Some x \<Rightarrow> x"
  have mp: "matches_params E None off so p t cs ce = (P, 50, ?O)"
    using matches_params_default [of E off so p t cs ce] by (simp add: prod_eq_iff P_def)
  have m: "matches E self None off so p t cs ce s = matches_loop E self [0] 50 ?O P [] s"
    by (simp add: matches_def mp max_limit_def py_range_50)
  have "map (\<lambda>r. param r ''page[limit]'') (issued s (snd (matches_loop E self [0] 50 ?O P [] s)))
     = [Some (PInt 50)]"
    by (simp add: Let_def get_eq issued_def http_request_def param_def AList.update_conv' max_limit_def
          split: sum.splits option.splits shaped.splits)
  then show ?thesis
    by (simp add: matches_def matches_params_zero m [unfolded matches_def])
qed

subsection \<open>What no operation changes\<close>

text \<open>
  C10. \<^verbatim>\<open>__init__\<close> stores the API key it is given and the base URL of the chosen
  datacenter, and no sequence of public operations (\<^verbatim>\<open>Vainglory\<close>, \<^verbatim>\<open>status\<close>,
  \<^verbatim>\<open>match\<close>, \<^verbatim>\<open>player\<close>, \<^verbatim>\<open>matches\<close>, with any arguments, on any client objects,
  against any service) changes the API key or the base URL of any client object: of the
  four fields only title and region can differ afterwards.
\<close>

theorem apikey_apiurl_invariant:
  "apikey (init key datacenter) = key \<and>
   apiurl (init key datacenter)
     = ''https://api.'' @ (case datacenter of None \<Rightarrow> ''dc01'' | Some d \<Rightarrow> d) @ ''.gamelockerapp.com/'' \<and>
   apikey (objs (run E cs s) a) = apikey (objs s a) \<and>
   apiurl (objs (run E cs s) a) = apiurl (objs s a)"
proof -
  have "apikey (objs (run E cs s) a) = apikey (objs s a) \<and>
        apiurl (objs (run E cs s) a) = apiurl (objs s a)"
  proof (induction cs arbitrary: s)
    case Nil
    show ?case by simp
  next
    case (Cons x cs)
    obtain self c where x: "x = (self, c)" by (cases x)
    show ?case using Cons.IH [of "snd (exec E self c s)"] exec_objs [of E self c s a] x
      by simp
  qed
  then show ?thesis by (simp add: init_def Let_def)
qed

end
